theory Spec2Isabelle
  imports Main "HOL-Library.Multiset"
begin

section \<open>Values, errors and the store handle\<close>

text \<open>
  A Python exception is its class name and its message. The source raises only
  \<^verbatim>\<open>ValueError\<close> itself; every other class comes from a collaborator.
\<close>

datatype exn = Exn (exn_class: string) (exn_msg: string)

type_synonym data = "int list"

text \<open>
  The data of a variable is either held in memory or is a dask collection, whose
  computation yields the data or raises.
\<close>

datatype source = NumpyArray data | DaskArray "exn + data"

fun materialize :: "source \<Rightarrow> exn + data" where
  "materialize (NumpyArray d) = Inr d"
| "materialize (DaskArray c) = c"

text \<open>\<^verbatim>\<open>dask.base.is_dask_collection\<close>, of the dask library.\<close>

fun is_dask_collection :: "source \<Rightarrow> bool" where
  "is_dask_collection (NumpyArray d) = False"
| "is_dask_collection (DaskArray c) = True"

text \<open>
  A target is a zarr array of the store, named by its path. A region is a tuple of
  slices, one for each dimension; the empty tuple is the region of a scalar array.
\<close>

type_synonym target = string
type_synonym slice = "int option \<times> int option"
type_synonym region = "slice list"

datatype selection = Ellipsis | Region region

text \<open>
  The subscript \<^verbatim>\<open>region or ...\<close>: \<^verbatim>\<open>None\<close> and the empty tuple are falsy.
\<close>

fun region_or_ellipsis :: "region option \<Rightarrow> selection" where
  "region_or_ellipsis None = Ellipsis"
| "region_or_ellipsis (Some []) = Ellipsis"
| "region_or_ellipsis (Some (s # ss)) = Region (s # ss)"

type_synonym location = "target \<times> selection"
type_synonym change_set = "(location \<times> data) list"

text \<open>
  Modelled from the spec: the class \<^verbatim>\<open>IcechunkStore\<close>, which is imported from the
  package and is not among the sources. A handle is a prospective transaction against a
  base version: it owns the pending mutations, oldest first. The field
  \<open>merge_calls\<close> records the argument of every call of \<^verbatim>\<open>merge\<close> on the handle.
\<close>

record icechunk_store =
  snapshot :: "(location \<times> data) list"
  changes :: change_set
  merge_calls :: "change_set list"

text \<open>Modelled from the spec: the change-set is the snapshot of the pending mutations.\<close>

definition change_set_bytes :: "icechunk_store \<Rightarrow> change_set" where
  "change_set_bytes st = changes st"

text \<open>
  Modelled from the spec: \<^verbatim>\<open>IcechunkStore.merge\<close> applies the given change-set on
  top of the pending mutations of the handle.
\<close>

definition IcechunkStore_merge :: "icechunk_store \<Rightarrow> change_set \<Rightarrow> icechunk_store" where
  "IcechunkStore_merge st cs =
     st\<lparr>changes := changes st @ cs, merge_calls := merge_calls st @ [cs]\<rparr>"

text \<open>The store-visible effect: a later mutation of a location hides an earlier one.\<close>

definition effect :: "change_set \<Rightarrow> location \<rightharpoonup> data" where
  "effect cs = map_of (rev cs)"

definition content :: "icechunk_store \<Rightarrow> location \<rightharpoonup> data" where
  "content st = map_of (snapshot st) ++ effect (changes st)"

definition locations :: "change_set \<Rightarrow> location set" where
  "locations cs = fst ` set cs"

fun pairwise_disjoint :: "change_set list \<Rightarrow> bool" where
  "pairwise_disjoint [] = True"
| "pairwise_disjoint (c # cs) =
     ((\<forall>d \<in> set cs. locations c \<inter> locations d = {}) \<and> pairwise_disjoint cs)"

text \<open>
  The assignment \<^verbatim>\<open>target[selection] = source\<close> of zarr: the value of the source is
  needed, so a source whose computation raises makes the assignment raise; otherwise
  the write is one more pending mutation of the handle.
\<close>

definition Array_setitem ::
  "icechunk_store \<Rightarrow> target \<Rightarrow> selection \<Rightarrow> source \<Rightarrow> exn + icechunk_store" where
  "Array_setitem st tgt sel src =
     (case materialize src of
        Inl e \<Rightarrow> Inl e
      | Inr d \<Rightarrow> Inr (st\<lparr>changes := changes st @ [((tgt, sel), d)]\<rparr>))"

text \<open>A zarr array as a chunk task returns it: the path and the handle it was written to.\<close>

record zarr_array =
  array_path :: target
  array_store :: icechunk_store

section \<open>The module \<^verbatim>\<open>icechunk.xarray\<close>\<close>

definition extract_stores :: "zarr_array \<Rightarrow> icechunk_store" where
  "extract_stores zarray = array_store zarray"

text \<open>
  \<^verbatim>\<open>store, *rest = stores\<close> raises \<^verbatim>\<open>ValueError\<close> when no store is given.
\<close>

fun merge_stores :: "icechunk_store list \<Rightarrow> exn + icechunk_store" where
  "merge_stores [] =
     Inl (Exn ''ValueError'' ''not enough values to unpack (expected at least 1, got 0)'')"
| "merge_stores (store # rest) =
     Inr (foldl (\<lambda>store other. IcechunkStore_merge store (change_set_bytes other)) store rest)"

text \<open>The flag \<open>has_dask\<close> is the module's global, set when the module is imported.\<close>

definition is_chunked_array :: "bool \<Rightarrow> source \<Rightarrow> bool" where
  "is_chunked_array has_dask x = (if has_dask then is_dask_collection x else False)"

subsection \<open>\<^verbatim>\<open>LazyArrayWriter\<close>\<close>

text \<open>
  The first three lists are those of the base class \<^verbatim>\<open>ArrayWriter\<close> of xarray.
\<close>

record lazy_array_writer =
  sources :: "source list"
  targets :: "target list"
  regions :: "region option list"
  eager_sources :: "source list"
  eager_targets :: "target list"
  eager_regions :: "region option list"

definition LazyArrayWriter_init :: lazy_array_writer where
  "LazyArrayWriter_init =
     \<lparr>sources = [], targets = [], regions = [],
      eager_sources = [], eager_targets = [], eager_regions = []\<rparr>"

type_synonym task = "source \<times> target \<times> region option"

definition LazyArrayWriter_add ::
  "bool \<Rightarrow> lazy_array_writer \<Rightarrow> task \<Rightarrow> lazy_array_writer" where
  "LazyArrayWriter_add has_dask self t =
     (case t of (source, target, region) \<Rightarrow>
        if is_chunked_array has_dask source
        then self\<lparr>sources := sources self @ [source],
                  targets := targets self @ [target],
                  regions := regions self @ [region]\<rparr>
        else self\<lparr>eager_sources := eager_sources self @ [source],
                  eager_targets := eager_targets self @ [target],
                  eager_regions := eager_regions self @ [region]\<rparr>)"

text \<open>
  The loop over \<^verbatim>\<open>zip(..., strict=True)\<close>: it raises \<^verbatim>\<open>ValueError\<close> when one list
  ends before another, after the writes of the common prefix.
\<close>

fun write_eager_loop ::
  "icechunk_store \<Rightarrow> source list \<Rightarrow> target list \<Rightarrow> region option list
     \<Rightarrow> (exn + unit) \<times> icechunk_store" where
  "write_eager_loop st [] [] [] = (Inr (), st)"
| "write_eager_loop st (source # ss) (target # ts) (region # rs) =
     (case Array_setitem st target (region_or_ellipsis region) source of
        Inl e \<Rightarrow> (Inl e, st)
      | Inr st' \<Rightarrow> write_eager_loop st' ss ts rs)"
| "write_eager_loop st ss ts rs =
     (Inl (Exn ''ValueError'' ''zip() arguments have different lengths''), st)"

text \<open>
  The targets are arrays of the canonical store, which the method reaches through them:
  the model takes the handle and returns it with the writer.
\<close>

definition LazyArrayWriter_write_eager ::
  "icechunk_store \<Rightarrow> lazy_array_writer
     \<Rightarrow> (exn + unit) \<times> icechunk_store \<times> lazy_array_writer" where
  "LazyArrayWriter_write_eager st self =
     (case write_eager_loop st (eager_sources self) (eager_targets self) (eager_regions self) of
        (Inl e, st') \<Rightarrow> (Inl e, st', self)
      | (Inr u, st') \<Rightarrow>
          (Inr (), st', self\<lparr>eager_sources := [], eager_targets := [], eager_regions := []\<rparr>))"

type_synonym kwargs = "string \<rightharpoonup> bool"

text \<open>
  \<^verbatim>\<open>ArrayWriter.sync\<close> of xarray, which the class inherits, called with
  \<^verbatim>\<open>compute=False\<close>: nothing is written; the deferred lists are handed to the chunk
  manager, whose \<^verbatim>\<open>store\<close> wants as many targets and regions as sources, and are reset.
\<close>

definition ArrayWriter_sync ::
  "lazy_array_writer \<Rightarrow> kwargs \<Rightarrow> exn + (task list \<times> lazy_array_writer)" where
  "ArrayWriter_sync self kw =
     (if length (sources self) = length (targets self)
         \<and> length (sources self) = length (regions self)
      then Inr (zip (sources self) (zip (targets self) (regions self)),
                self\<lparr>sources := [], targets := [], regions := []\<rparr>)
      else Inl (Exn ''ValueError'' ''Different number of sources and targets''))"

subsection \<open>\<^verbatim>\<open>XarrayDatasetWriter\<close>\<close>

type_synonym dataset = "(string \<times> source) list"

text \<open>
  The field \<open>initialized\<close> is \<^verbatim>\<open>_initialized\<close>; \<open>writer\<close> is unset until
  \<^verbatim>\<open>write_metadata\<close> assigns it. The attributes \<^verbatim>\<open>mode\<close> and \<^verbatim>\<open>xarray_store\<close>
  are written by \<^verbatim>\<open>write_metadata\<close> and read by no method of the module.
\<close>

record xarray_dataset_writer =
  dataset :: dataset
  store :: icechunk_store
  initialized :: bool
  writer :: "lazy_array_writer option"

text \<open>The argument \<^verbatim>\<open>store\<close> is any object; \<open>OtherObject\<close> carries the name of its type.\<close>

datatype store_arg = IcechunkStore icechunk_store | OtherObject string

text \<open>The constructor of the dataclass, followed by \<^verbatim>\<open>__post_init__\<close>.\<close>

fun XarrayDatasetWriter :: "dataset \<Rightarrow> store_arg \<Rightarrow> bool \<Rightarrow> exn + xarray_dataset_writer" where
  "XarrayDatasetWriter ds (OtherObject ty) init =
     Inl (Exn ''ValueError''
            (''Please pass in an IcechunkStore. Recevied '' @ ty @ '' instead.''))"
| "XarrayDatasetWriter ds (IcechunkStore st) init =
     Inr \<lparr>dataset = ds, store = st, initialized = init, writer = None\<rparr>"

text \<open>
  The keyword arguments of \<^verbatim>\<open>write_metadata\<close>, which it only passes on.
\<close>

record metadata_args =
  group :: "string option"
  mode :: "string option"
  encoding :: "(string \<times> string) list option"
  append_dim :: "string option"
  region_arg :: "(string \<times> slice) list option"
  write_empty_chunks :: "bool option"
  safe_chunks :: bool

text \<open>
  \<^verbatim>\<open>write_metadata\<close> works through xarray. The calls before the writer is created
  (the validation of the names, \<^verbatim>\<open>ZarrStore.open_group\<close>, the validation of the
  encoding and of the region) are the parameter \<open>open_and_validate\<close>: it raises or
  returns the validated dataset, and may have changed the store.
  \<^verbatim>\<open>dump_to_store\<close> is the parameter \<open>dump\<close>: it writes the metadata of every array and
  calls \<^verbatim>\<open>writer.add\<close> once for each variable; it returns the error it raised, if any,
  the calls of \<^verbatim>\<open>add\<close> it made, and the store.
\<close>

type_synonym validator =
  "dataset \<Rightarrow> icechunk_store \<Rightarrow> metadata_args \<Rightarrow> (exn + dataset) \<times> icechunk_store"
type_synonym dumper =
  "dataset \<Rightarrow> icechunk_store \<Rightarrow> metadata_args \<Rightarrow> exn option \<times> task list \<times> icechunk_store"

definition XarrayDatasetWriter_write_metadata ::
  "bool \<Rightarrow> validator \<Rightarrow> dumper \<Rightarrow> metadata_args \<Rightarrow> xarray_dataset_writer
     \<Rightarrow> (exn + unit) \<times> xarray_dataset_writer" where
  "XarrayDatasetWriter_write_metadata has_dask open_and_validate dump args self =
     (case open_and_validate (dataset self) (store self) args of
        (Inl e, st) \<Rightarrow> (Inl e, self\<lparr>store := st\<rparr>)
      | (Inr ds, st) \<Rightarrow>
          (case dump ds st args of (raised, added, st') \<Rightarrow>
             let w = foldl (LazyArrayWriter_add has_dask) LazyArrayWriter_init added;
                 self' = self\<lparr>store := st', writer := Some w\<rparr>
             in (case raised of
                   Some e \<Rightarrow> (Inl e, self')
                 | None \<Rightarrow> (Inr (), self'\<lparr>initialized := True\<rparr>))))"

definition not_initialized :: exn where
  "not_initialized = Exn ''ValueError'' ''Please call `write_metadata` first.''"

definition no_writer :: exn where
  "no_writer =
     Exn ''AttributeError'' ''XarrayDatasetWriter object has no attribute writer''"

definition XarrayDatasetWriter_write_eager ::
  "xarray_dataset_writer \<Rightarrow> (exn + unit) \<times> xarray_dataset_writer" where
  "XarrayDatasetWriter_write_eager self =
     (if \<not> initialized self then (Inl not_initialized, self)
      else case writer self of
             None \<Rightarrow> (Inl no_writer, self)
           | Some w \<Rightarrow>
               (case LazyArrayWriter_write_eager (store self) w of
                  (res, st, w') \<Rightarrow> (res, self\<lparr>store := st, writer := Some w'\<rparr>)))"

text \<open>
  \<^verbatim>\<open>stateful_store_reduce\<close> is imported from \<^verbatim>\<open>icechunk.dask\<close>, which is not among
  the sources: it is the parameter \<open>reduce\<close> of the model of \<^verbatim>\<open>write_lazy\<close>, called with
  the arguments the source gives it. The stored arrays it is given are the deferred targets,
  and these are arrays opened on the canonical store, as the eager targets are; nothing in
  the module makes a copy of that store. So the reducer is given the canonical store as its
  last argument, and returns, with the store it produced or the error it raised, the
  canonical store as its chunk tasks and its reduction left it. \<open>None\<close> is the reducer
  that does not return.
\<close>

type_synonym reducer =
  "task list \<Rightarrow> string \<Rightarrow> (zarr_array \<Rightarrow> icechunk_store)
     \<Rightarrow> (icechunk_store list \<Rightarrow> exn + icechunk_store)
     \<Rightarrow> int option \<Rightarrow> bool \<Rightarrow> kwargs \<Rightarrow> icechunk_store
     \<Rightarrow> ((exn + icechunk_store) \<times> icechunk_store) option"

definition store_kwargs :: "kwargs option \<Rightarrow> kwargs" where
  "store_kwargs chunkmanager_store_kwargs =
     (case chunkmanager_store_kwargs of None \<Rightarrow> Map.empty | Some kw \<Rightarrow> kw)
       (''load_stored'' \<mapsto> False, ''return_stored'' \<mapsto> True)"

definition XarrayDatasetWriter_write_lazy ::
  "reducer \<Rightarrow> kwargs option \<Rightarrow> int option \<Rightarrow> xarray_dataset_writer
     \<Rightarrow> ((exn + unit) \<times> xarray_dataset_writer) option" where
  "XarrayDatasetWriter_write_lazy reduce chunkmanager_store_kwargs split_every self =
     (if \<not> initialized self then Some (Inl not_initialized, self)
      else case writer self of
             None \<Rightarrow> Some (Inl no_writer, self)
           | Some w \<Rightarrow>
               if sources w = [] then Some (Inr (), self)
               else
                 let kw = store_kwargs chunkmanager_store_kwargs in
                 (case ArrayWriter_sync w kw of
                    Inl e \<Rightarrow> Some (Inl e, self)
                  | Inr (stored_arrays, w') \<Rightarrow>
                      (case reduce stored_arrays ''ice-changeset'' extract_stores merge_stores
                              split_every True kw (store self) of
                         None \<Rightarrow> None
                       | Some (Inl e, st) \<Rightarrow> Some (Inl e, self\<lparr>writer := Some w', store := st\<rparr>)
                       | Some (Inr merged_store, st) \<Rightarrow>
                           Some (Inr (),
                                 self\<lparr>writer := Some w',
                                      store := IcechunkStore_merge st
                                                 (change_set_bytes merged_store)\<rparr>))))"

text \<open>
  \<^verbatim>\<open>to_icechunk\<close> returns nothing; the model returns the outcome and the store argument
  as the call leaves it. The argument \<^verbatim>\<open>split_every\<close> is not passed on to
  \<^verbatim>\<open>write_lazy\<close>, which so receives \<^verbatim>\<open>None\<close>; further keyword arguments are
  accepted and not used.
\<close>

definition to_icechunk ::
  "bool \<Rightarrow> validator \<Rightarrow> dumper \<Rightarrow> reducer \<Rightarrow> dataset \<Rightarrow> store_arg \<Rightarrow> metadata_args
     \<Rightarrow> kwargs option \<Rightarrow> int option \<Rightarrow> ((exn + unit) \<times> store_arg) option" where
  "to_icechunk has_dask open_and_validate dump reduce ds st args
       chunkmanager_store_kwargs split_every =
     (case XarrayDatasetWriter ds st False of
        Inl e \<Rightarrow> Some (Inl e, st)
      | Inr w0 \<Rightarrow>
          (case XarrayDatasetWriter_write_metadata has_dask open_and_validate dump args w0 of
             (Inl e, w1) \<Rightarrow> Some (Inl e, IcechunkStore (store w1))
           | (Inr u, w1) \<Rightarrow>
               (case XarrayDatasetWriter_write_eager w1 of
                  (Inl e, w2) \<Rightarrow> Some (Inl e, IcechunkStore (store w2))
                | (Inr u', w2) \<Rightarrow>
                    (case XarrayDatasetWriter_write_lazy reduce chunkmanager_store_kwargs None w2 of
                       None \<Rightarrow> None
                     | Some (res, w3) \<Rightarrow> Some (res, IcechunkStore (store w3))))))"

section \<open>The reducer of the spec\<close>

text \<open>
  Modelled from the spec: a chunk task (4.3), given a deferred write task, computes the
  source, writes it into a handle of its own, derived from \<open>base\<close>, and returns that
  handle (on the array it wrote); if the computation fails, the task fails with a
  \<^verbatim>\<open>TaskExecutionError\<close> that carries the target and the cause.
\<close>

definition run_chunk_task :: "icechunk_store \<Rightarrow> task \<Rightarrow> exn + zarr_array" where
  "run_chunk_task base t =
     (case t of (source, target, region) \<Rightarrow>
        (case Array_setitem base target (region_or_ellipsis region) source of
           Inl e \<Rightarrow> Inl (Exn ''TaskExecutionError'' (target @ '': '' @ exn_class e))
         | Inr st \<Rightarrow> Inr \<lparr>array_path = target, array_store = st\<rparr>))"

text \<open>
  Modelled from the spec: the parallel task runner (6) returns the results in input order
  or raises the first failure.
\<close>

fun run_tasks :: "('a \<Rightarrow> exn + 'b) \<Rightarrow> 'a list \<Rightarrow> exn + 'b list" where
  "run_tasks f [] = Inr []"
| "run_tasks f (t # ts) =
     (case f t of
        Inl e \<Rightarrow> Inl e
      | Inr y \<Rightarrow> (case run_tasks f ts of Inl e \<Rightarrow> Inl e | Inr ys \<Rightarrow> Inr (y # ys)))"

text \<open>
  Modelled from the spec: the contiguous groups of at most \<open>n\<close> items, in input order
  (4.2). There is no such partition of a non-empty list for \<open>n = 0\<close>, and
  \<open>tree_reduce\<close> does not ask for one.
\<close>

function groups_of :: "nat \<Rightarrow> 'a list \<Rightarrow> 'a list list" where
  "groups_of n xs =
     (if n = 0 \<or> xs = [] then [] else take n xs # groups_of n (drop n xs))"
  by pat_completeness auto
termination
  by (relation "measure (\<lambda>(n, xs). length xs)") auto

declare groups_of.simps [simp del]

text \<open>
  Modelled from the spec: the tree reducer (4.2) combines each group by one call of
  \<open>combine\<close> and recurses on the results until one value remains; a single item is
  returned as it is. With a branching factor of 1 the recursion makes no progress on two
  items or more: the first argument bounds the number of levels, and \<open>None\<close> is the
  reduction that does not return.
\<close>

fun tree_reduce ::
  "nat \<Rightarrow> ('a list \<Rightarrow> exn + 'a) \<Rightarrow> nat \<Rightarrow> 'a list \<Rightarrow> (exn + 'a) option" where
  "tree_reduce fuel combine bf [x] = Some (Inr x)"
| "tree_reduce 0 combine bf items = None"
| "tree_reduce (Suc fuel) combine bf items =
     (if bf = 0 then None
      else case run_tasks combine (groups_of bf items) of
             Inl e \<Rightarrow> Some (Inl e)
           | Inr ys \<Rightarrow> tree_reduce fuel combine bf ys)"

text \<open>
  Modelled from the spec: \<^verbatim>\<open>stateful_store_reduce\<close> (4.4) spawns one chunk task for
  each deferred write task, collects the handles, and runs the tree reducer over them with
  the given combine function. Each task derives its handle from the canonical one and no
  task writes into the canonical handle (4.3), which is returned as it was given.
  \<open>dflt\<close> is the branching factor when \<^verbatim>\<open>split_every\<close> is \<^verbatim>\<open>None\<close>. As many
  levels as there are items are enough for every branching factor that makes progress.
\<close>

definition stateful_store_reduce :: "nat \<Rightarrow> reducer" where
  "stateful_store_reduce dflt stored_arrays prefix chunk aggregate split_every
       compute kw canonical =
     (case run_tasks (run_chunk_task canonical) stored_arrays of
        Inl e \<Rightarrow> Some (Inl e, canonical)
      | Inr arrays \<Rightarrow>
          map_option (\<lambda>r. (r, canonical))
            (tree_reduce (length arrays) aggregate
               (case split_every of None \<Rightarrow> dflt | Some k \<Rightarrow> nat k) (map chunk arrays)))"

section \<open>A reducer on shared objects\<close>



section \<open>Notions used by the properties\<close>

text \<open>An outcome raises a class when it is an exception of that class.\<close>

definition raises :: "string \<Rightarrow> (exn + 'a) \<Rightarrow> bool" where
  "raises cls r = (case r of Inl e \<Rightarrow> exn_class e = cls | Inr v \<Rightarrow> False)"

text \<open>The tasks that the chunked-array test accepts, and those it rejects.\<close>

definition deferred_tasks :: "bool \<Rightarrow> task list \<Rightarrow> task list" where
  "deferred_tasks has_dask ts = filter (\<lambda>t. is_chunked_array has_dask (fst t)) ts"

definition eager_tasks :: "bool \<Rightarrow> task list \<Rightarrow> task list" where
  "eager_tasks has_dask ts = filter (\<lambda>t. \<not> is_chunked_array has_dask (fst t)) ts"

text \<open>A handle on an empty base version with nothing pending.\<close>

definition empty_store :: icechunk_store where
  "empty_store = \<lparr>snapshot = [], changes = [], merge_calls = []\<rparr>"

text \<open>A reducer that does not return, whatever it is given.\<close>

definition never_returns :: reducer where
  "never_returns stored_arrays prefix chunk aggregate split_every compute kw canonical = None"


text \<open>
  Collaborators for the examples: a validation that accepts every dataset, one that
  rejects every dataset, and a \<^verbatim>\<open>dump_to_store\<close> that adds one task for each
  variable, for the whole array.
\<close>

definition validate_ok :: validator where
  "validate_ok ds st args = (Inr ds, st)"

definition validate_rejects :: validator where
  "validate_rejects ds st args = (Inl (Exn ''ValueError'' ''invalid dataset''), st)"

definition dump_whole_arrays :: dumper where
  "dump_whole_arrays ds st args = (None, map (\<lambda>(name, src). (src, name, None)) ds, st)"

definition default_args :: metadata_args where
  "default_args =
     \<lparr>group = None, mode = None, encoding = None, append_dim = None, region_arg = None,
      write_empty_chunks = None, safe_chunks = True\<rparr>"

text \<open>
  Handles for the examples: all on the base version that holds \<open>[0]\<close> for the array
  \<open>w\<close>, each with one pending write of a whole array, or with none.
\<close>

definition example_store :: "change_set \<Rightarrow> icechunk_store" where
  "example_store cs = \<lparr>snapshot = [((''w'', Ellipsis), [0])], changes = cs, merge_calls = []\<rparr>"

definition write_x :: change_set where "write_x = [((''x'', Ellipsis), [1])]"
definition write_y :: change_set where "write_y = [((''y'', Ellipsis), [2])]"
definition write_z :: change_set where "write_z = [((''z'', Ellipsis), [3])]"

section \<open>The eager loop\<close>

lemma write_eager_loop_success:
  "length ts = length ss \<Longrightarrow> length rs = length ss \<Longrightarrow> map materialize ss = map Inr ds \<Longrightarrow>
   write_eager_loop st ss ts rs =
     (Inr (), st\<lparr>changes := changes st @ zip (zip ts (map region_or_ellipsis rs)) ds\<rparr>)"
proof (induction ss arbitrary: ts rs ds st)
  case Nil
  then show ?case by simp
next
  case (Cons s ss)
  obtain t ts' where ts: "ts = t # ts'" using Cons.prems(1) by (cases ts) auto
  obtain r rs' where rs: "rs = r # rs'" using Cons.prems(2) by (cases rs) auto
  obtain d ds' where ds: "ds = d # ds'" using Cons.prems(3) by (cases ds) auto
  have m: "materialize s = Inr d" and ms: "map materialize ss = map Inr ds'"
    using Cons.prems(3) ds by auto
  have "write_eager_loop (st\<lparr>changes := changes st @ [((t, region_or_ellipsis r), d)]\<rparr>) ss ts' rs' =
          (Inr (), (st\<lparr>changes := changes st @ [((t, region_or_ellipsis r), d)]\<rparr>)
             \<lparr>changes := changes (st\<lparr>changes := changes st @ [((t, region_or_ellipsis r), d)]\<rparr>)
                 @ zip (zip ts' (map region_or_ellipsis rs')) ds'\<rparr>)"
    using Cons.prems ts rs ms by (intro Cons.IH) auto
  then show ?case
    by (simp add: ts rs ds m Array_setitem_def)
qed

lemma write_eager_loop_InrD:
  "write_eager_loop st ss ts rs = (Inr u, st') \<Longrightarrow>
   length ts = length ss \<and> length rs = length ss \<and> (\<exists>ds. map materialize ss = map Inr ds)"
proof (induction st ss ts rs rule: write_eager_loop.induct)
  case (2 st source ss target ts region rs)
  show ?case
  proof (cases "materialize source")
    case (Inl e)
    with "2.prems" show ?thesis by (simp add: Array_setitem_def)
  next
    case (Inr d)
    with "2.prems" have
      "write_eager_loop (st\<lparr>changes := changes st @ [((target, region_or_ellipsis region), d)]\<rparr>)
         ss ts rs = (Inr u, st')"
      by (simp add: Array_setitem_def)
    with "2.IH" [of "st\<lparr>changes := changes st @ [((target, region_or_ellipsis region), d)]\<rparr>"]
    have "length ts = length ss \<and> length rs = length ss \<and> (\<exists>ds. map materialize ss = map Inr ds)"
      by (simp add: Array_setitem_def Inr)
    then obtain ds where "length ts = length ss" "length rs = length ss"
      "map materialize ss = map Inr ds" by blast
    then have "map materialize (source # ss) = map Inr (d # ds)" using Inr by simp
    then show ?thesis using \<open>length ts = length ss\<close> \<open>length rs = length ss\<close> by (metis length_Cons)
  qed
qed simp_all

lemma write_eager_loop_changes:
  "write_eager_loop st ss ts rs = (res, st') \<Longrightarrow>
   snapshot st' = snapshot st \<and> merge_calls st' = merge_calls st"
  by (induction st ss ts rs rule: write_eager_loop.induct)
    (auto simp: Array_setitem_def split: sum.splits)


lemma write_eager_loop_unequal:
  "\<not> (length ts = length ss \<and> length rs = length ss) \<Longrightarrow>
   \<exists>e. fst (write_eager_loop st ss ts rs) = Inl e"
proof -
  assume a: "\<not> (length ts = length ss \<and> length rs = length ss)"
  obtain res st' where r: "write_eager_loop st ss ts rs = (res, st')" by (cases "write_eager_loop st ss ts rs")
  show ?thesis
  proof (cases res)
    case (Inl e)
    then show ?thesis using r by simp
  next
    case (Inr u)
    then show ?thesis using r a write_eager_loop_InrD [of st ss ts rs u st'] by simp
  qed
qed

lemma foldl_add_deferred:
  "sources (foldl (LazyArrayWriter_add h) w ts) = sources w @ map fst (deferred_tasks h ts)
   \<and> targets (foldl (LazyArrayWriter_add h) w ts) = targets w @ map (fst \<circ> snd) (deferred_tasks h ts)
   \<and> regions (foldl (LazyArrayWriter_add h) w ts) = regions w @ map (snd \<circ> snd) (deferred_tasks h ts)"
  by (induction ts arbitrary: w)
    (auto simp: LazyArrayWriter_add_def deferred_tasks_def split: prod.splits)

lemma foldl_add_eager:
  "eager_sources (foldl (LazyArrayWriter_add h) w ts) = eager_sources w @ map fst (eager_tasks h ts)
   \<and> eager_targets (foldl (LazyArrayWriter_add h) w ts) =
       eager_targets w @ map (fst \<circ> snd) (eager_tasks h ts)
   \<and> eager_regions (foldl (LazyArrayWriter_add h) w ts) =
       eager_regions w @ map (snd \<circ> snd) (eager_tasks h ts)"
  by (induction ts arbitrary: w)
    (auto simp: LazyArrayWriter_add_def eager_tasks_def split: prod.splits)

lemma zip_triple: "zip (map fst ts) (zip (map (fst \<circ> snd) ts) (map (snd \<circ> snd) ts)) = ts"
  by (induction ts) auto

lemma zip_locations:
  "zip (map (fst \<circ> snd) ts) (map (region_or_ellipsis \<circ> (snd \<circ> snd)) ts) =
   map (\<lambda>(s, t, r). (t, region_or_ellipsis r)) ts"
  by (induction ts) auto

lemma mset_tasks_partition: "mset ts = mset (deferred_tasks h ts) + mset (eager_tasks h ts)"
  by (induction ts) (auto simp: deferred_tasks_def eager_tasks_def)

lemma LazyArrayWriter_write_eager_InrD:
  assumes "LazyArrayWriter_write_eager st w = (Inr u, st', w')"
  shows "sources w' = sources w \<and> targets w' = targets w \<and> regions w' = regions w
       \<and> eager_sources w' = [] \<and> eager_targets w' = [] \<and> eager_regions w' = []
       \<and> snapshot st' = snapshot st \<and> merge_calls st' = merge_calls st
       \<and> map fst (changes st') =
           map fst (changes st) @ zip (eager_targets w) (map region_or_ellipsis (eager_regions w))"
proof -
  from assms obtain u' where
    l: "write_eager_loop st (eager_sources w) (eager_targets w) (eager_regions w) = (Inr u', st')"
    and w': "w' = w\<lparr>eager_sources := [], eager_targets := [], eager_regions := []\<rparr>"
    by (auto simp: LazyArrayWriter_write_eager_def split: prod.splits sum.splits)
  from write_eager_loop_InrD [OF l] obtain ds where
    len: "length (eager_targets w) = length (eager_sources w)"
      "length (eager_regions w) = length (eager_sources w)"
    and ds: "map materialize (eager_sources w) = map Inr ds"
    by blast
  from ds have lds: "length ds = length (eager_sources w)" by (metis length_map)
  from write_eager_loop_success [OF len ds, of st] l have
    st': "st' = st\<lparr>changes := changes st
                @ zip (zip (eager_targets w) (map region_or_ellipsis (eager_regions w))) ds\<rparr>"
    by simp
  have "map fst (zip (zip (eager_targets w) (map region_or_ellipsis (eager_regions w))) ds) =
        zip (eager_targets w) (map region_or_ellipsis (eager_regions w))"
    using len lds by simp
  then show ?thesis by (simp add: st' w')
qed

lemma LazyArrayWriter_write_eager_frame:
  "LazyArrayWriter_write_eager st w = (res, st', w') \<Longrightarrow>
   sources w' = sources w \<and> targets w' = targets w \<and> regions w' = regions w"
  by (auto simp: LazyArrayWriter_write_eager_def split: prod.splits sum.splits)

section \<open>Construction and the order of the phases\<close>

text \<open>
  C9. Constructing the writer with a store argument that is not an \<^verbatim>\<open>IcechunkStore\<close>
  raises \<^verbatim>\<open>ValueError\<close>; \<^verbatim>\<open>to_icechunk\<close> then raises the same error, whatever its
  collaborators are, so before any of them is called, and leaves the argument as it was.
  With an \<^verbatim>\<open>IcechunkStore\<close> the construction succeeds.
\<close>

theorem XarrayDatasetWriter_rejects_other_store:
  "XarrayDatasetWriter ds (OtherObject ty) init =
     Inl (Exn ''ValueError'' (''Please pass in an IcechunkStore. Recevied '' @ ty @ '' instead.''))
   \<and> to_icechunk has_dask open_and_validate dump reduce ds (OtherObject ty) args kw split_every =
       Some (Inl (Exn ''ValueError''
                    (''Please pass in an IcechunkStore. Recevied '' @ ty @ '' instead.'')),
             OtherObject ty)
   \<and> XarrayDatasetWriter ds (IcechunkStore st) init =
       Inr \<lparr>dataset = ds, store = st, initialized = init, writer = None\<rparr>"
  by (simp add: to_icechunk_def)

text \<open>
  C3, as amended. On a writer whose \<^verbatim>\<open>_initialized\<close> flag is not set, as it is from the
  construction until \<^verbatim>\<open>write_metadata\<close> has completed, \<^verbatim>\<open>write_eager\<close> and
  \<^verbatim>\<open>write_lazy\<close> raise a \<^verbatim>\<open>ValueError\<close> at once: the writer and its store are returned
  as they were, and the reducer is not called. A \<^verbatim>\<open>write_metadata\<close> that raises leaves
  the flag unset.
\<close>

theorem write_before_metadata_raises_ValueError:
  assumes "\<not> initialized w"
  shows "XarrayDatasetWriter_write_eager w = (Inl not_initialized, w)
       \<and> XarrayDatasetWriter_write_lazy reduce kw split_every w = Some (Inl not_initialized, w)
       \<and> raises ''ValueError'' (Inl not_initialized :: exn + unit)
       \<and> (XarrayDatasetWriter_write_metadata has_dask open_and_validate dump args w = (Inl e, w1)
          \<longrightarrow> \<not> initialized w1)"
proof -
  have "\<not> initialized w1"
    if "XarrayDatasetWriter_write_metadata has_dask open_and_validate dump args w = (Inl e, w1)"
    using that assms
    by (auto simp: XarrayDatasetWriter_write_metadata_def Let_def
        split: prod.splits sum.splits option.splits)
  then show ?thesis
    using assms
    by (simp add: XarrayDatasetWriter_write_eager_def XarrayDatasetWriter_write_lazy_def
        raises_def not_initialized_def)
qed

theorem write_before_metadata_raises_ValueError_witness:
  "\<not> initialized \<lparr>dataset = [], store = empty_store, initialized = False, writer = None\<rparr>
   \<and> XarrayDatasetWriter ([] :: dataset) (IcechunkStore empty_store) False =
       Inr \<lparr>dataset = [], store = empty_store, initialized = False, writer = None\<rparr>
   \<and> XarrayDatasetWriter_write_eager
       \<lparr>dataset = [], store = empty_store, initialized = False, writer = None\<rparr> =
       (Inl not_initialized,
        \<lparr>dataset = [], store = empty_store, initialized = False, writer = None\<rparr>)
   \<and> XarrayDatasetWriter_write_lazy never_returns None None
       \<lparr>dataset = [], store = empty_store, initialized = False, writer = None\<rparr> =
       Some (Inl not_initialized,
        \<lparr>dataset = [], store = empty_store, initialized = False, writer = None\<rparr>)
   \<and> XarrayDatasetWriter_write_metadata True validate_rejects dump_whole_arrays default_args
       \<lparr>dataset = [], store = empty_store, initialized = False, writer = None\<rparr> =
       (Inl (Exn ''ValueError'' ''invalid dataset''),
        \<lparr>dataset = [], store = empty_store, initialized = False, writer = None\<rparr>)"
proof -
  let ?w = "\<lparr>dataset = [], store = empty_store, initialized = False, writer = None\<rparr>"
  have m: "XarrayDatasetWriter_write_metadata True validate_rejects dump_whole_arrays default_args
       ?w = (Inl (Exn ''ValueError'' ''invalid dataset''), ?w)"
    by (simp add: XarrayDatasetWriter_write_metadata_def validate_rejects_def)
  show ?thesis
    using m write_before_metadata_raises_ValueError
      [of ?w never_returns None None True validate_rejects dump_whole_arrays default_args
          "Exn ''ValueError'' ''invalid dataset''" ?w]
    by simp
qed

text \<open>
  C3, as stated, fails: on a writer just constructed, neither phase raises an exception of
  a class \<^verbatim>\<open>NotInitializedError\<close>.
\<close>

theorem write_before_metadata_counterexample:
  "\<not> raises ''NotInitializedError''
       (fst (XarrayDatasetWriter_write_eager
          \<lparr>dataset = [], store = empty_store, initialized = False, writer = None\<rparr>))
   \<and> XarrayDatasetWriter_write_lazy never_returns None None
       \<lparr>dataset = [], store = empty_store, initialized = False, writer = None\<rparr> =
     Some (Inl not_initialized,
           \<lparr>dataset = [], store = empty_store, initialized = False, writer = None\<rparr>)
   \<and> \<not> raises ''NotInitializedError'' (Inl not_initialized :: exn + unit)"
  by (simp add: XarrayDatasetWriter_write_eager_def XarrayDatasetWriter_write_lazy_def
      raises_def not_initialized_def)

text \<open>
  C7. On an initialized writer with no deferred task, \<^verbatim>\<open>write_lazy\<close> returns at once:
  whatever the reducer is, also one that would not return, the call succeeds and the writer
  with its store, and so the record of the calls of \<^verbatim>\<open>merge\<close>, is as it was.
\<close>

theorem write_lazy_without_deferred_is_noop:
  assumes "initialized w" and "writer w = Some lw" and "sources lw = []"
  shows "XarrayDatasetWriter_write_lazy reduce kw split_every w = Some (Inr (), w)"
  using assms by (simp add: XarrayDatasetWriter_write_lazy_def)

theorem write_lazy_without_deferred_is_noop_witness:
  "XarrayDatasetWriter_write_lazy never_returns None (Some 2)
     \<lparr>dataset = [(''x'', NumpyArray [1])], store = empty_store, initialized = True,
      writer = Some \<lparr>sources = [], targets = [], regions = [],
                     eager_sources = [NumpyArray [1]], eager_targets = [''x''],
                     eager_regions = [None]\<rparr>\<rparr> =
   Some (Inr (),
     \<lparr>dataset = [(''x'', NumpyArray [1])], store = empty_store, initialized = True,
      writer = Some \<lparr>sources = [], targets = [], regions = [],
                     eager_sources = [NumpyArray [1]], eager_targets = [''x''],
                     eager_regions = [None]\<rparr>\<rparr>)"
  using write_lazy_without_deferred_is_noop
    [of "\<lparr>dataset = [(''x'', NumpyArray [1])], store = empty_store, initialized = True,
      writer = Some \<lparr>sources = [], targets = [], regions = [],
                     eager_sources = [NumpyArray [1]], eager_targets = [''x''],
                     eager_regions = [None]\<rparr>\<rparr>"
        "\<lparr>sources = [], targets = [], regions = [],
                     eager_sources = [NumpyArray [1]], eager_targets = [''x''],
                     eager_regions = [None]\<rparr>" never_returns None "Some 2"]
  by simp

section \<open>The eager phase\<close>

text \<open>
  C6. \<^verbatim>\<open>write_eager\<close> of the array writer takes the three eager lists in lockstep. When
  they have the same length and every source yields its data, it succeeds: the store gets,
  in the order of the lists, one write for each task, of the data of its source into its
  target, at the region of the task when that is a non-empty tuple and at the whole array
  (the ellipsis) when it is \<^verbatim>\<open>None\<close> or the empty tuple; the lists are then empty. When
  the lengths differ the call raises and the lists are kept.
\<close>

theorem write_eager_writes_every_eager_task:
  "(length (eager_targets w) = length (eager_sources w)
      \<and> length (eager_regions w) = length (eager_sources w)
      \<and> map materialize (eager_sources w) = map Inr ds
    \<longrightarrow> LazyArrayWriter_write_eager st w =
          (Inr (),
           st\<lparr>changes := changes st
                @ zip (zip (eager_targets w) (map region_or_ellipsis (eager_regions w))) ds\<rparr>,
           w\<lparr>eager_sources := [], eager_targets := [], eager_regions := []\<rparr>))
   \<and> (\<not> (length (eager_targets w) = length (eager_sources w)
          \<and> length (eager_regions w) = length (eager_sources w))
      \<longrightarrow> (\<exists>e. fst (LazyArrayWriter_write_eager st w) = Inl e)
          \<and> snd (snd (LazyArrayWriter_write_eager st w)) = w)
   \<and> region_or_ellipsis None = Ellipsis
   \<and> region_or_ellipsis (Some []) = Ellipsis
   \<and> region_or_ellipsis (Some (s # ss)) = Region (s # ss)"
proof -
  have 1: "LazyArrayWriter_write_eager st w =
          (Inr (),
           st\<lparr>changes := changes st
                @ zip (zip (eager_targets w) (map region_or_ellipsis (eager_regions w))) ds\<rparr>,
           w\<lparr>eager_sources := [], eager_targets := [], eager_regions := []\<rparr>)"
    if "length (eager_targets w) = length (eager_sources w)"
      "length (eager_regions w) = length (eager_sources w)"
      "map materialize (eager_sources w) = map Inr ds"
    using write_eager_loop_success [OF that, of st]
    by (simp add: LazyArrayWriter_write_eager_def)
  have 2: "(\<exists>e. fst (LazyArrayWriter_write_eager st w) = Inl e)
          \<and> snd (snd (LazyArrayWriter_write_eager st w)) = w"
    if a: "\<not> (length (eager_targets w) = length (eager_sources w)
          \<and> length (eager_regions w) = length (eager_sources w))"
  proof -
    obtain e where "fst (write_eager_loop st (eager_sources w) (eager_targets w) (eager_regions w)) = Inl e"
      using write_eager_loop_unequal [OF a, of st] by blast
    then show ?thesis
      by (cases "write_eager_loop st (eager_sources w) (eager_targets w) (eager_regions w)")
        (simp add: LazyArrayWriter_write_eager_def)
  qed
  show ?thesis using 1 2 by simp
qed

theorem write_eager_writes_every_eager_task_witness:
  "LazyArrayWriter_write_eager empty_store
     \<lparr>sources = [], targets = [], regions = [],
      eager_sources = [NumpyArray [1, 2], NumpyArray [3]],
      eager_targets = [''x'', ''y''],
      eager_regions = [Some [(Some 0, Some 2)], None]\<rparr> =
   (Inr (),
    \<lparr>snapshot = [],
     changes = [((''x'', Region [(Some 0, Some 2)]), [1, 2]), ((''y'', Ellipsis), [3])],
     merge_calls = []\<rparr>,
    \<lparr>sources = [], targets = [], regions = [],
     eager_sources = [], eager_targets = [], eager_regions = []\<rparr>)
   \<and> (\<exists>e. fst (LazyArrayWriter_write_eager empty_store
     \<lparr>sources = [], targets = [], regions = [],
      eager_sources = [NumpyArray [1, 2], NumpyArray [3]],
      eager_targets = [''x''],
      eager_regions = [Some [(Some 0, Some 2)], None]\<rparr>) = Inl e)"
  using write_eager_writes_every_eager_task
    [of "\<lparr>sources = [], targets = [], regions = [],
      eager_sources = [NumpyArray [1, 2], NumpyArray [3]],
      eager_targets = [''x'', ''y''],
      eager_regions = [Some [(Some 0, Some 2)], None]\<rparr>" "[[1, 2], [3]]" empty_store]
    write_eager_writes_every_eager_task
    [of "\<lparr>sources = [], targets = [], regions = [],
      eager_sources = [NumpyArray [1, 2], NumpyArray [3]],
      eager_targets = [''x''],
      eager_regions = [Some [(Some 0, Some 2)], None]\<rparr>" "[]" empty_store]
  by (simp add: empty_store_def)

text \<open>
  C8. After \<^verbatim>\<open>write_eager\<close> has completed once, the eager lists are empty, and a second
  call succeeds and changes nothing: the writer and its store, so the pending writes, are
  returned as the first call left them.
\<close>

theorem write_eager_is_idempotent:
  assumes "XarrayDatasetWriter_write_eager w = (Inr (), w1)"
  shows "(\<exists>lw. writer w1 = Some lw \<and> eager_sources lw = [] \<and> eager_targets lw = []
             \<and> eager_regions lw = [])
       \<and> XarrayDatasetWriter_write_eager w1 = (Inr (), w1)"
proof -
  from assms have i: "initialized w"
    by (auto simp: XarrayDatasetWriter_write_eager_def split: if_splits)
  from assms i obtain lw where lw: "writer w = Some lw"
    by (auto simp: XarrayDatasetWriter_write_eager_def split: option.splits)
  obtain res st lw' where r: "LazyArrayWriter_write_eager (store w) lw = (res, st, lw')"
    by (cases "LazyArrayWriter_write_eager (store w) lw") auto
  from assms i lw r have res: "res = Inr ()" and w1: "w1 = w\<lparr>store := st, writer := Some lw'\<rparr>"
    by (auto simp: XarrayDatasetWriter_write_eager_def)
  from r res have lw': "lw' = lw\<lparr>eager_sources := [], eager_targets := [], eager_regions := []\<rparr>"
    by (auto simp: LazyArrayWriter_write_eager_def split: prod.splits sum.splits)
  have "LazyArrayWriter_write_eager st lw' = (Inr (), st, lw')"
    by (simp add: lw' LazyArrayWriter_write_eager_def)
  then show ?thesis using i by (simp add: w1 lw' XarrayDatasetWriter_write_eager_def)
qed

theorem write_eager_is_idempotent_witness:
  "XarrayDatasetWriter_write_eager
     \<lparr>dataset = [], store = empty_store, initialized = True,
      writer = Some \<lparr>sources = [DaskArray (Inr [2])], targets = [''y''], regions = [None],
                     eager_sources = [NumpyArray [1]], eager_targets = [''x''],
                     eager_regions = [None]\<rparr>\<rparr> =
     (Inr (),
      \<lparr>dataset = [],
       store = \<lparr>snapshot = [], changes = [((''x'', Ellipsis), [1])], merge_calls = []\<rparr>,
       initialized = True,
       writer = Some \<lparr>sources = [DaskArray (Inr [2])], targets = [''y''], regions = [None],
                      eager_sources = [], eager_targets = [], eager_regions = []\<rparr>\<rparr>)
   \<and> XarrayDatasetWriter_write_eager
      \<lparr>dataset = [],
       store = \<lparr>snapshot = [], changes = [((''x'', Ellipsis), [1])], merge_calls = []\<rparr>,
       initialized = True,
       writer = Some \<lparr>sources = [DaskArray (Inr [2])], targets = [''y''], regions = [None],
                      eager_sources = [], eager_targets = [], eager_regions = []\<rparr>\<rparr> =
     (Inr (),
      \<lparr>dataset = [],
       store = \<lparr>snapshot = [], changes = [((''x'', Ellipsis), [1])], merge_calls = []\<rparr>,
       initialized = True,
       writer = Some \<lparr>sources = [DaskArray (Inr [2])], targets = [''y''], regions = [None],
                      eager_sources = [], eager_targets = [], eager_regions = []\<rparr>\<rparr>)"
proof -
  have h: "XarrayDatasetWriter_write_eager
     \<lparr>dataset = [], store = empty_store, initialized = True,
      writer = Some \<lparr>sources = [DaskArray (Inr [2])], targets = [''y''], regions = [None],
                     eager_sources = [NumpyArray [1]], eager_targets = [''x''],
                     eager_regions = [None]\<rparr>\<rparr> =
     (Inr (),
      \<lparr>dataset = [],
       store = \<lparr>snapshot = [], changes = [((''x'', Ellipsis), [1])], merge_calls = []\<rparr>,
       initialized = True,
       writer = Some \<lparr>sources = [DaskArray (Inr [2])], targets = [''y''], regions = [None],
                      eager_sources = [], eager_targets = [], eager_regions = []\<rparr>\<rparr>)"
    by (simp add: XarrayDatasetWriter_write_eager_def LazyArrayWriter_write_eager_def
        Array_setitem_def empty_store_def)
  show ?thesis using h write_eager_is_idempotent [OF h] by simp
qed

section \<open>The classification of the tasks\<close>

text \<open>
  C5. Every task added to a new writer goes, by the one test \<^verbatim>\<open>is_chunked_array\<close> of its
  source, to the deferred lists or to the eager lists: the deferred lists hold the tasks
  the test accepts and the eager lists those it rejects, each in the order of the calls, and
  the two lists of tasks partition the added tasks. What \<^verbatim>\<open>sync\<close> hands to the reduction
  is the deferred tasks and nothing else, and a successful \<^verbatim>\<open>write_eager\<close> writes at the
  locations of the eager tasks and nowhere else, and leaves the deferred lists as they are.
\<close>

theorem add_partitions_tasks:
  "sources (foldl (LazyArrayWriter_add has_dask) LazyArrayWriter_init ts) =
     map fst (deferred_tasks has_dask ts)
   \<and> targets (foldl (LazyArrayWriter_add has_dask) LazyArrayWriter_init ts) =
     map (fst \<circ> snd) (deferred_tasks has_dask ts)
   \<and> regions (foldl (LazyArrayWriter_add has_dask) LazyArrayWriter_init ts) =
     map (snd \<circ> snd) (deferred_tasks has_dask ts)
   \<and> eager_sources (foldl (LazyArrayWriter_add has_dask) LazyArrayWriter_init ts) =
     map fst (eager_tasks has_dask ts)
   \<and> eager_targets (foldl (LazyArrayWriter_add has_dask) LazyArrayWriter_init ts) =
     map (fst \<circ> snd) (eager_tasks has_dask ts)
   \<and> eager_regions (foldl (LazyArrayWriter_add has_dask) LazyArrayWriter_init ts) =
     map (snd \<circ> snd) (eager_tasks has_dask ts)
   \<and> mset ts = mset (deferred_tasks has_dask ts) + mset (eager_tasks has_dask ts)
   \<and> set (deferred_tasks has_dask ts) \<inter> set (eager_tasks has_dask ts) = {}
   \<and> ArrayWriter_sync (foldl (LazyArrayWriter_add has_dask) LazyArrayWriter_init ts) kw =
       Inr (deferred_tasks has_dask ts,
            (foldl (LazyArrayWriter_add has_dask) LazyArrayWriter_init ts)
              \<lparr>sources := [], targets := [], regions := []\<rparr>)
   \<and> (LazyArrayWriter_write_eager st
         (foldl (LazyArrayWriter_add has_dask) LazyArrayWriter_init ts) = (Inr (), st', w')
      \<longrightarrow> map fst (changes st') =
            map fst (changes st)
              @ map (\<lambda>(s, t, r). (t, region_or_ellipsis r)) (eager_tasks has_dask ts)
          \<and> sources w' = map fst (deferred_tasks has_dask ts)
          \<and> targets w' = map (fst \<circ> snd) (deferred_tasks has_dask ts)
          \<and> regions w' = map (snd \<circ> snd) (deferred_tasks has_dask ts))"
proof -
  let ?w = "foldl (LazyArrayWriter_add has_dask) LazyArrayWriter_init ts"
  have d: "sources ?w = map fst (deferred_tasks has_dask ts)"
    "targets ?w = map (fst \<circ> snd) (deferred_tasks has_dask ts)"
    "regions ?w = map (snd \<circ> snd) (deferred_tasks has_dask ts)"
    using foldl_add_deferred [of has_dask LazyArrayWriter_init ts]
    by (simp_all add: LazyArrayWriter_init_def)
  have e: "eager_sources ?w = map fst (eager_tasks has_dask ts)"
    "eager_targets ?w = map (fst \<circ> snd) (eager_tasks has_dask ts)"
    "eager_regions ?w = map (snd \<circ> snd) (eager_tasks has_dask ts)"
    using foldl_add_eager [of has_dask LazyArrayWriter_init ts]
    by (simp_all add: LazyArrayWriter_init_def)
  have p: "mset ts = mset (deferred_tasks has_dask ts) + mset (eager_tasks has_dask ts)"
    by (rule mset_tasks_partition)
  have q: "set (deferred_tasks has_dask ts) \<inter> set (eager_tasks has_dask ts) = {}"
    by (auto simp: deferred_tasks_def eager_tasks_def)
  have s: "ArrayWriter_sync ?w kw =
       Inr (deferred_tasks has_dask ts, ?w\<lparr>sources := [], targets := [], regions := []\<rparr>)"
    unfolding ArrayWriter_sync_def d by (simp add: zip_triple)
  have w: "map fst (changes st') =
            map fst (changes st)
              @ map (\<lambda>(s, t, r). (t, region_or_ellipsis r)) (eager_tasks has_dask ts)
          \<and> sources w' = map fst (deferred_tasks has_dask ts)
          \<and> targets w' = map (fst \<circ> snd) (deferred_tasks has_dask ts)
          \<and> regions w' = map (snd \<circ> snd) (deferred_tasks has_dask ts)"
    if a: "LazyArrayWriter_write_eager st ?w = (Inr (), st', w')"
    using LazyArrayWriter_write_eager_InrD [OF a] by (simp add: d e zip_locations)
  show ?thesis using d e p q s w by blast
qed

theorem add_partitions_tasks_witness:
  "sources (foldl (LazyArrayWriter_add True) LazyArrayWriter_init
      [(NumpyArray [1], ''x'', None), (DaskArray (Inr [2]), ''y'', Some [(Some 0, Some 1)])]) =
     [DaskArray (Inr [2])]
   \<and> eager_sources (foldl (LazyArrayWriter_add True) LazyArrayWriter_init
      [(NumpyArray [1], ''x'', None), (DaskArray (Inr [2]), ''y'', Some [(Some 0, Some 1)])]) =
     [NumpyArray [1]]
   \<and> LazyArrayWriter_write_eager empty_store
       (foldl (LazyArrayWriter_add True) LazyArrayWriter_init
         [(NumpyArray [1], ''x'', None), (DaskArray (Inr [2]), ''y'', Some [(Some 0, Some 1)])]) =
     (Inr (), \<lparr>snapshot = [], changes = [((''x'', Ellipsis), [1])], merge_calls = []\<rparr>,
      \<lparr>sources = [DaskArray (Inr [2])], targets = [''y''], regions = [Some [(Some 0, Some 1)]],
       eager_sources = [], eager_targets = [], eager_regions = []\<rparr>)
   \<and> map fst (changes \<lparr>snapshot = [], changes = [((''x'', Ellipsis), [1])], merge_calls = []\<rparr>) =
     [(''x'', Ellipsis)]"
proof -
  have h: "LazyArrayWriter_write_eager empty_store
       (foldl (LazyArrayWriter_add True) LazyArrayWriter_init
         [(NumpyArray [1], ''x'', None), (DaskArray (Inr [2]), ''y'', Some [(Some 0, Some 1)])]) =
     (Inr (), \<lparr>snapshot = [], changes = [((''x'', Ellipsis), [1])], merge_calls = []\<rparr>,
      \<lparr>sources = [DaskArray (Inr [2])], targets = [''y''], regions = [Some [(Some 0, Some 1)]],
       eager_sources = [], eager_targets = [], eager_regions = []\<rparr>)"
    by (simp add: LazyArrayWriter_add_def LazyArrayWriter_init_def is_chunked_array_def
        LazyArrayWriter_write_eager_def Array_setitem_def empty_store_def)
  show ?thesis
    using h add_partitions_tasks
      [of True "[(NumpyArray [1], ''x'', None),
                 (DaskArray (Inr [2]), ''y'', Some [(Some 0, Some 1)])]" "Map.empty" empty_store
          "\<lparr>snapshot = [], changes = [((''x'', Ellipsis), [1])], merge_calls = []\<rparr>"
          "\<lparr>sources = [DaskArray (Inr [2])], targets = [''y''],
            regions = [Some [(Some 0, Some 1)]],
            eager_sources = [], eager_targets = [], eager_regions = []\<rparr>"]
    by (simp add: deferred_tasks_def eager_tasks_def is_chunked_array_def)
qed

section \<open>Without dask\<close>

lemma write_metadata_InrD:
  "XarrayDatasetWriter_write_metadata h v d args w = (Inr u, w1) \<Longrightarrow>
   initialized w1
   \<and> (\<exists>ts. writer w1 = Some (foldl (LazyArrayWriter_add h) LazyArrayWriter_init ts))"
  by (auto simp: XarrayDatasetWriter_write_metadata_def Let_def
      split: prod.splits sum.splits option.splits)

lemma XarrayDatasetWriter_write_eager_frame:
  "XarrayDatasetWriter_write_eager w = (res, w2) \<Longrightarrow> writer w = Some lw \<Longrightarrow>
   initialized w2 = initialized w \<and> (\<exists>lw2. writer w2 = Some lw2 \<and> sources lw2 = sources lw)"
  by (auto simp: XarrayDatasetWriter_write_eager_def
      split: if_splits prod.splits dest: LazyArrayWriter_write_eager_frame)

lemma deferred_tasks_without_dask: "deferred_tasks False ts = []"
  by (simp add: deferred_tasks_def is_chunked_array_def)

lemma eager_tasks_without_dask: "eager_tasks False ts = ts"
  by (simp add: eager_tasks_def is_chunked_array_def)

lemma sources_without_dask:
  "sources (foldl (LazyArrayWriter_add False) LazyArrayWriter_init ts) = []"
  using foldl_add_deferred [of False LazyArrayWriter_init ts]
  by (simp add: deferred_tasks_without_dask LazyArrayWriter_init_def)

lemma write_lazy_after_metadata_without_dask:
  assumes "XarrayDatasetWriter_write_metadata False v d args w = (Inr u, w1)"
  shows "XarrayDatasetWriter_write_lazy reduce kw se w1 = Some (Inr (), w1)"
    and "XarrayDatasetWriter_write_lazy reduce kw se (snd (XarrayDatasetWriter_write_eager w1)) =
         Some (Inr (), snd (XarrayDatasetWriter_write_eager w1))"
proof -
  from write_metadata_InrD [OF assms] obtain ts where
    i: "initialized w1"
    and lw: "writer w1 = Some (foldl (LazyArrayWriter_add False) LazyArrayWriter_init ts)"
    by blast
  show "XarrayDatasetWriter_write_lazy reduce kw se w1 = Some (Inr (), w1)"
    using i lw by (simp add: XarrayDatasetWriter_write_lazy_def sources_without_dask)
  obtain res w2 where r: "XarrayDatasetWriter_write_eager w1 = (res, w2)"
    by (cases "XarrayDatasetWriter_write_eager w1")
  from XarrayDatasetWriter_write_eager_frame [OF r lw] obtain lw2 where
    "initialized w2" "writer w2 = Some lw2" "sources lw2 = []"
    using i by (auto simp: sources_without_dask)
  then show "XarrayDatasetWriter_write_lazy reduce kw se (snd (XarrayDatasetWriter_write_eager w1)) =
         Some (Inr (), snd (XarrayDatasetWriter_write_eager w1))"
    by (simp add: r XarrayDatasetWriter_write_lazy_def)
qed

lemma to_icechunk_without_dask:
  "to_icechunk False v d reduce ds st args kw se =
     (case XarrayDatasetWriter ds st False of
        Inl e \<Rightarrow> Some (Inl e, st)
      | Inr w0 \<Rightarrow>
          (case XarrayDatasetWriter_write_metadata False v d args w0 of
             (Inl e, w1) \<Rightarrow> Some (Inl e, IcechunkStore (store w1))
           | (Inr u, w1) \<Rightarrow>
               (case XarrayDatasetWriter_write_eager w1 of
                  (Inl e, w2) \<Rightarrow> Some (Inl e, IcechunkStore (store w2))
                | (Inr u', w2) \<Rightarrow> Some (Inr (), IcechunkStore (store w2)))))"
proof (cases "XarrayDatasetWriter ds st False")
  case (Inl e)
  then show ?thesis by (simp add: to_icechunk_def)
next
  case (Inr w0)
  obtain r1 w1 where m: "XarrayDatasetWriter_write_metadata False v d args w0 = (r1, w1)"
    by (cases "XarrayDatasetWriter_write_metadata False v d args w0")
  show ?thesis
  proof (cases r1)
    case (Inl e)
    then show ?thesis using Inr m by (simp add: to_icechunk_def)
  next
    case r1: (Inr u)
    obtain r2 w2 where e: "XarrayDatasetWriter_write_eager w1 = (r2, w2)"
      by (cases "XarrayDatasetWriter_write_eager w1")
    have "XarrayDatasetWriter_write_lazy reduce kw None w2 = Some (Inr (), w2)"
      using write_lazy_after_metadata_without_dask(2) [OF m [unfolded r1], of reduce kw None] e
      by simp
    then show ?thesis using Inr m r1 e by (cases r2) (simp_all add: to_icechunk_def)
  qed
qed

text \<open>
  C10. When dask is not importable, \<^verbatim>\<open>is_chunked_array\<close> is false of every source: every
  task added goes to the eager lists and the deferred lists stay empty. So after
  \<^verbatim>\<open>write_metadata\<close>, and also after \<^verbatim>\<open>write_eager\<close>, \<^verbatim>\<open>write_lazy\<close> succeeds without a
  change, whatever the reducer is, and \<^verbatim>\<open>to_icechunk\<close> returns the same with a reducer that
  would not return as with any other.
\<close>

theorem without_dask_every_task_is_eager:
  "is_chunked_array False x = False
   \<and> sources (foldl (LazyArrayWriter_add False) LazyArrayWriter_init ts) = []
   \<and> targets (foldl (LazyArrayWriter_add False) LazyArrayWriter_init ts) = []
   \<and> regions (foldl (LazyArrayWriter_add False) LazyArrayWriter_init ts) = []
   \<and> eager_sources (foldl (LazyArrayWriter_add False) LazyArrayWriter_init ts) = map fst ts
   \<and> eager_targets (foldl (LazyArrayWriter_add False) LazyArrayWriter_init ts) =
       map (fst \<circ> snd) ts
   \<and> eager_regions (foldl (LazyArrayWriter_add False) LazyArrayWriter_init ts) =
       map (snd \<circ> snd) ts
   \<and> (XarrayDatasetWriter_write_metadata False open_and_validate dump args w = (Inr (), w1)
      \<longrightarrow> XarrayDatasetWriter_write_lazy reduce kw split_every w1 = Some (Inr (), w1)
        \<and> XarrayDatasetWriter_write_lazy reduce kw split_every
            (snd (XarrayDatasetWriter_write_eager w1)) =
          Some (Inr (), snd (XarrayDatasetWriter_write_eager w1)))
   \<and> to_icechunk False open_and_validate dump reduce ds st args kw split_every =
       to_icechunk False open_and_validate dump never_returns ds st args kw split_every
   \<and> to_icechunk False open_and_validate dump reduce ds st args kw split_every \<noteq> None"
proof -
  let ?w = "foldl (LazyArrayWriter_add False) LazyArrayWriter_init ts"
  have a: "is_chunked_array False x = False" by (simp add: is_chunked_array_def)
  have d: "sources ?w = []" "targets ?w = []" "regions ?w = []"
    using foldl_add_deferred [of False LazyArrayWriter_init ts]
    by (simp_all add: deferred_tasks_without_dask LazyArrayWriter_init_def)
  have e: "eager_sources ?w = map fst ts" "eager_targets ?w = map (fst \<circ> snd) ts"
    "eager_regions ?w = map (snd \<circ> snd) ts"
    using foldl_add_eager [of False LazyArrayWriter_init ts]
    by (simp_all add: eager_tasks_without_dask LazyArrayWriter_init_def)
  have l: "XarrayDatasetWriter_write_lazy reduce kw split_every w1 = Some (Inr (), w1)
        \<and> XarrayDatasetWriter_write_lazy reduce kw split_every
            (snd (XarrayDatasetWriter_write_eager w1)) =
          Some (Inr (), snd (XarrayDatasetWriter_write_eager w1))"
    if m: "XarrayDatasetWriter_write_metadata False open_and_validate dump args w = (Inr (), w1)"
    using write_lazy_after_metadata_without_dask [OF m] by simp
  have t: "to_icechunk False open_and_validate dump reduce ds st args kw split_every =
       to_icechunk False open_and_validate dump never_returns ds st args kw split_every"
    by (simp only: to_icechunk_without_dask)
  have n: "to_icechunk False open_and_validate dump reduce ds st args kw split_every \<noteq> None"
    by (simp add: to_icechunk_without_dask split: sum.splits prod.splits)
  show ?thesis using a d e l t n by blast
qed

theorem without_dask_every_task_is_eager_witness:
  "XarrayDatasetWriter_write_metadata False validate_ok dump_whole_arrays default_args
     \<lparr>dataset = [(''x'', NumpyArray [1]), (''y'', DaskArray (Inr [2]))], store = empty_store,
      initialized = False, writer = None\<rparr> =
     (Inr (),
      \<lparr>dataset = [(''x'', NumpyArray [1]), (''y'', DaskArray (Inr [2]))], store = empty_store,
       initialized = True,
       writer = Some \<lparr>sources = [], targets = [], regions = [],
                      eager_sources = [NumpyArray [1], DaskArray (Inr [2])],
                      eager_targets = [''x'', ''y''], eager_regions = [None, None]\<rparr>\<rparr>)
   \<and> XarrayDatasetWriter_write_lazy never_returns None None
      \<lparr>dataset = [(''x'', NumpyArray [1]), (''y'', DaskArray (Inr [2]))], store = empty_store,
       initialized = True,
       writer = Some \<lparr>sources = [], targets = [], regions = [],
                      eager_sources = [NumpyArray [1], DaskArray (Inr [2])],
                      eager_targets = [''x'', ''y''], eager_regions = [None, None]\<rparr>\<rparr> =
     Some (Inr (),
      \<lparr>dataset = [(''x'', NumpyArray [1]), (''y'', DaskArray (Inr [2]))], store = empty_store,
       initialized = True,
       writer = Some \<lparr>sources = [], targets = [], regions = [],
                      eager_sources = [NumpyArray [1], DaskArray (Inr [2])],
                      eager_targets = [''x'', ''y''], eager_regions = [None, None]\<rparr>\<rparr>)"
proof -
  have h: "XarrayDatasetWriter_write_metadata False validate_ok dump_whole_arrays default_args
     \<lparr>dataset = [(''x'', NumpyArray [1]), (''y'', DaskArray (Inr [2]))], store = empty_store,
      initialized = False, writer = None\<rparr> =
     (Inr (),
      \<lparr>dataset = [(''x'', NumpyArray [1]), (''y'', DaskArray (Inr [2]))], store = empty_store,
       initialized = True,
       writer = Some \<lparr>sources = [], targets = [], regions = [],
                      eager_sources = [NumpyArray [1], DaskArray (Inr [2])],
                      eager_targets = [''x'', ''y''], eager_regions = [None, None]\<rparr>\<rparr>)"
    by (simp add: XarrayDatasetWriter_write_metadata_def validate_ok_def dump_whole_arrays_def
        LazyArrayWriter_add_def LazyArrayWriter_init_def is_chunked_array_def)
  show ?thesis
    using h without_dask_every_task_is_eager
      [of "NumpyArray []" "[]" validate_ok dump_whole_arrays default_args
        "\<lparr>dataset = [(''x'', NumpyArray [1]), (''y'', DaskArray (Inr [2]))],
          store = empty_store, initialized = False, writer = None\<rparr>"
        "\<lparr>dataset = [(''x'', NumpyArray [1]), (''y'', DaskArray (Inr [2]))],
          store = empty_store, initialized = True,
          writer = Some \<lparr>sources = [], targets = [], regions = [],
                      eager_sources = [NumpyArray [1], DaskArray (Inr [2])],
                      eager_targets = [''x'', ''y''], eager_regions = [None, None]\<rparr>\<rparr>"
        never_returns None None]
    by simp
qed

section \<open>The lazy phase\<close>

lemma IcechunkStore_merge_fields:
  "changes (IcechunkStore_merge st cs) = changes st @ cs"
  "merge_calls (IcechunkStore_merge st cs) = merge_calls st @ [cs]"
  "snapshot (IcechunkStore_merge st cs) = snapshot st"
  by (simp_all add: IcechunkStore_merge_def)

lemma run_tasks_fails:
  "t \<in> set ts \<Longrightarrow> f t = Inl e \<Longrightarrow> \<exists>e'. run_tasks f ts = Inl e'"
  by (induction ts) (auto split: sum.splits)

lemma run_tasks_InlD:
  "run_tasks f ts = Inl e \<Longrightarrow> \<exists>t \<in> set ts. f t = Inl e"
  by (induction ts) (auto split: sum.splits)

text \<open>
  The reducer of the spec raises when a chunk task fails: the error is that of a failed
  task, and no reduction is attempted.
\<close>

lemma stateful_store_reduce_task_failure:
  assumes "t \<in> set stored" and "run_chunk_task canonical t = Inl e"
  shows "\<exists>e' t'. stateful_store_reduce dflt stored prefix chunk aggregate se c kw canonical =
                   Some (Inl e', canonical)
               \<and> t' \<in> set stored \<and> run_chunk_task canonical t' = Inl e'"
proof -
  from run_tasks_fails [of t stored "run_chunk_task canonical" e] assms obtain e' where
    e': "run_tasks (run_chunk_task canonical) stored = Inl e'" by blast
  from run_tasks_InlD [OF e'] obtain t' where
    "t' \<in> set stored" "run_chunk_task canonical t' = Inl e'"
    by blast
  then show ?thesis using e'
    by (intro exI [of _ e'] exI [of _ t']) (simp add: stateful_store_reduce_def)
qed










section \<open>Merging change-sets\<close>

lemma effect_append: "effect (a @ b) = effect a ++ effect b"
  by (simp add: effect_def)

lemma dom_effect: "dom (effect cs) = locations cs"
  by (simp add: effect_def locations_def dom_map_of_conv_image_fst)

lemma effect_None: "k \<notin> locations cs \<Longrightarrow> effect cs k = None"
  using dom_effect [of cs] by auto

lemma effect_concat_None:
  "\<forall>cs \<in> set css. k \<notin> locations cs \<Longrightarrow> effect (concat css) k = None"
proof (induction css)
  case Nil
  then show ?case by (simp add: effect_def)
next
  case (Cons c css)
  then show ?case by (simp add: effect_append effect_None map_add_def)
qed

lemma effect_concat_lookup:
  "pairwise_disjoint css \<Longrightarrow> cs \<in> set css \<Longrightarrow> k \<in> locations cs \<Longrightarrow>
   effect (concat css) k = effect cs k"
proof (induction css)
  case Nil
  then show ?case by simp
next
  case (Cons c css)
  have app: "effect (concat (c # css)) k = (effect c ++ effect (concat css)) k"
    by (simp add: effect_append)
  show ?case
  proof (cases "cs \<in> set css")
    case True
    with Cons have ih: "effect (concat css) k = effect cs k" by simp
    from Cons.prems(3) obtain v where "effect cs k = Some v"
      using dom_effect [of cs] by auto
    with ih app show ?thesis by (simp add: map_add_def)
  next
    case False
    with Cons.prems(2) have c: "cs = c" by simp
    with Cons.prems have "\<forall>d \<in> set css. k \<notin> locations d" by auto
    then have "effect (concat css) k = None" by (rule effect_concat_None)
    with app c show ?thesis by (simp add: map_add_def)
  qed
qed

lemma pairwise_disjoint_count:
  "pairwise_disjoint css \<longleftrightarrow> (\<forall>k. length (filter (\<lambda>c. k \<in> locations c) css) \<le> 1)"
proof (induction css)
  case Nil
  then show ?case by simp
next
  case (Cons c css)
  have "(\<forall>k. length (filter (\<lambda>c. k \<in> locations c) (c # css)) \<le> 1) \<longleftrightarrow>
        (\<forall>k. length (filter (\<lambda>c. k \<in> locations c) css) \<le> 1)
        \<and> (\<forall>k \<in> locations c. filter (\<lambda>c. k \<in> locations c) css = [])"
    by (auto simp: le_Suc_eq)
  also have "(\<forall>k \<in> locations c. filter (\<lambda>c. k \<in> locations c) css = []) \<longleftrightarrow>
             (\<forall>d \<in> set css. locations c \<inter> locations d = {})"
    by (auto simp: filter_empty_conv)
  finally show ?case using Cons.IH by auto
qed

lemma pairwise_disjoint_mset:
  assumes "mset css = mset css'" and "pairwise_disjoint css"
  shows "pairwise_disjoint css'"
proof -
  have "length (filter P css') = length (filter P css)" for P :: "change_set \<Rightarrow> bool"
  proof -
    have "size (filter_mset P (mset css')) = size (filter_mset P (mset css))"
      using assms(1) by simp
    then show ?thesis by (simp only: mset_filter [symmetric] size_mset)
  qed
  then show ?thesis using assms(2) by (simp add: pairwise_disjoint_count)
qed

lemma effect_concat_mset:
  assumes "mset css = mset css'" and "pairwise_disjoint css"
  shows "effect (concat css) = effect (concat css')"
proof
  fix k
  have pd': "pairwise_disjoint css'" using assms by (rule pairwise_disjoint_mset)
  have set_eq: "set css = set css'" using assms(1) by (rule mset_eq_setD)
  show "effect (concat css) k = effect (concat css') k"
  proof (cases "\<exists>cs \<in> set css. k \<in> locations cs")
    case True
    then obtain cs where cs: "cs \<in> set css" "k \<in> locations cs" by blast
    then show ?thesis
      using effect_concat_lookup [OF assms(2) cs] effect_concat_lookup [OF pd', of cs k] set_eq
      by simp
  next
    case False
    then show ?thesis
      using effect_concat_None [of css k] effect_concat_None [of css' k] set_eq by simp
  qed
qed

lemma foldl_merge_fields:
  "changes (foldl (\<lambda>store other. IcechunkStore_merge store (change_set_bytes other)) s rest) =
     changes s @ concat (map changes rest)
   \<and> snapshot (foldl (\<lambda>store other. IcechunkStore_merge store (change_set_bytes other)) s rest) =
     snapshot s"
  by (induction rest arbitrary: s) (simp_all add: IcechunkStore_merge_fields change_set_bytes_def)

lemma merge_stores_InrD:
  "merge_stores ss = Inr m \<Longrightarrow>
   ss \<noteq> [] \<and> changes m = concat (map changes ss) \<and> snapshot m = snapshot (hd ss)"
  by (cases ss) (auto simp: foldl_merge_fields)

lemma merge_groups_InrD:
  "map merge_stores gs = map Inr ms \<Longrightarrow>
   concat (map changes ms) = concat (map changes (concat gs))
   \<and> (\<forall>g \<in> set gs. g \<noteq> [])
   \<and> map snapshot ms = map (snapshot \<circ> hd) gs"
proof (induction gs arbitrary: ms)
  case Nil
  then show ?case by simp
next
  case (Cons g gs)
  then obtain m ms' where ms: "ms = m # ms'" by (cases ms) auto
  with Cons.prems have g: "merge_stores g = Inr m" and r: "map merge_stores gs = map Inr ms'"
    by auto
  from merge_stores_InrD [OF g] Cons.IH [OF r] show ?case by (simp add: ms)
qed

lemma regrouped_merge_content:
  assumes ss: "\<forall>s \<in> set ss. snapshot s = base" "pairwise_disjoint (map changes ss)"
    and flat: "merge_stores ss = Inr m"
    and groups: "mset (concat gs) = mset ss" "map merge_stores gs = map Inr ms"
      "merge_stores ms = Inr m'"
  shows "content m' = content m"
proof -
  from merge_stores_InrD [OF flat] have m: "ss \<noteq> []" "changes m = concat (map changes ss)"
    "snapshot m = snapshot (hd ss)" by simp_all
  from merge_groups_InrD [OF groups(2)] have g:
    "concat (map changes ms) = concat (map changes (concat gs))"
    "\<forall>g \<in> set gs. g \<noteq> []" "map snapshot ms = map (snapshot \<circ> hd) gs" by simp_all
  from merge_stores_InrD [OF groups(3)] have m': "ms \<noteq> []" "changes m' = concat (map changes ms)"
    "snapshot m' = snapshot (hd ms)" by simp_all
  have set_eq: "set (concat gs) = set ss" using groups(1) by (rule mset_eq_setD)
  have "snapshot m = base" using m ss(1) by simp
  moreover have "snapshot m' = base"
  proof -
    from m'(1) g(3) have gs: "gs \<noteq> []" by auto
    then have hg: "hd gs \<in> set gs" by simp
    with g(2) have "hd gs \<noteq> []" by blast
    then have "hd (hd gs) \<in> set (hd gs)" by simp
    with hg have "hd (hd gs) \<in> set (concat gs)" by auto
    with set_eq ss(1) have b: "snapshot (hd (hd gs)) = base" by simp
    have "snapshot (hd ms) = hd (map snapshot ms)" using m'(1) by (simp add: hd_map)
    also have "\<dots> = hd (map (snapshot \<circ> hd) gs)" by (simp only: g(3))
    also have "\<dots> = snapshot (hd (hd gs))" using gs by (simp add: hd_map)
    finally show ?thesis using b m'(3) by simp
  qed
  moreover have "effect (changes m') = effect (changes m)"
  proof -
    have "mset (map changes ss) = mset (map changes (concat gs))"
      using groups(1) by (simp only: mset_map)
    from effect_concat_mset [OF this ss(2)] show ?thesis by (simp add: m m' g(1))
  qed
  ultimately show ?thesis by (simp add: content_def)
qed

text \<open>
  C2. Merging store handles of one base version, whose change-sets touch pairwise disjoint
  locations, is associative and commutative in its effect on the content of the store, and
  a handle with nothing pending is an identity. So the content that \<^verbatim>\<open>merge_stores\<close>
  gives for a list of such handles is also the content obtained by taking the handles in
  any order, cutting them into any groups, and merging the results of the groups.
\<close>

theorem merge_stores_commutative_monoid:
  assumes "snapshot a = base" and "snapshot b = base" and "snapshot c = base"
    and "snapshot e = base" and "changes e = []"
    and "pairwise_disjoint [changes a, changes b, changes c]"
    and "\<forall>s \<in> set ss. snapshot s = base" and "pairwise_disjoint (map changes ss)"
    and "merge_stores ss = Inr m"
    and "mset (concat gs) = mset ss" and "map merge_stores gs = map Inr ms"
    and "merge_stores ms = Inr m'"
  shows "merge_stores [a, b] = Inr (IcechunkStore_merge a (change_set_bytes b))
       \<and> content (IcechunkStore_merge (IcechunkStore_merge a (change_set_bytes b))
                   (change_set_bytes c)) =
         content (IcechunkStore_merge a
                   (change_set_bytes (IcechunkStore_merge b (change_set_bytes c))))
       \<and> content (IcechunkStore_merge a (change_set_bytes b)) =
         content (IcechunkStore_merge b (change_set_bytes a))
       \<and> content (IcechunkStore_merge a (change_set_bytes e)) = content a
       \<and> content (IcechunkStore_merge e (change_set_bytes a)) = content a
       \<and> content m' = content m"
proof -
  have 1: "merge_stores [a, b] = Inr (IcechunkStore_merge a (change_set_bytes b))" by simp
  have 2: "content (IcechunkStore_merge (IcechunkStore_merge a (change_set_bytes b))
                   (change_set_bytes c)) =
         content (IcechunkStore_merge a
                   (change_set_bytes (IcechunkStore_merge b (change_set_bytes c))))"
    by (simp add: content_def IcechunkStore_merge_fields change_set_bytes_def)
  have "dom (effect (changes a)) \<inter> dom (effect (changes b)) = {}"
    using assms(6) by (simp add: dom_effect)
  then have "effect (changes a) ++ effect (changes b) = effect (changes b) ++ effect (changes a)"
    by (rule map_add_comm)
  then have 3: "content (IcechunkStore_merge a (change_set_bytes b)) =
         content (IcechunkStore_merge b (change_set_bytes a))"
    using assms(1,2)
    by (simp add: content_def IcechunkStore_merge_fields change_set_bytes_def effect_append)
  have 4: "content (IcechunkStore_merge a (change_set_bytes e)) = content a"
    using assms(5) by (simp add: content_def IcechunkStore_merge_fields change_set_bytes_def)
  have 5: "content (IcechunkStore_merge e (change_set_bytes a)) = content a"
    using assms(1,4,5) by (simp add: content_def IcechunkStore_merge_fields change_set_bytes_def)
  have 6: "content m' = content m"
    using assms(7-12) by (rule regrouped_merge_content)
  show ?thesis using 1 2 3 4 5 6 by simp
qed

theorem merge_stores_commutative_monoid_witness:
  "merge_stores [example_store write_x, example_store write_y, example_store write_z] =
     Inr \<lparr>snapshot = [((''w'', Ellipsis), [0])], changes = write_x @ write_y @ write_z,
          merge_calls = [write_y, write_z]\<rparr>
   \<and> map merge_stores [[example_store write_z], [example_store write_y, example_store write_x]] =
     map Inr [example_store write_z,
              \<lparr>snapshot = [((''w'', Ellipsis), [0])], changes = write_y @ write_x,
               merge_calls = [write_x]\<rparr>]
   \<and> merge_stores [example_store write_z,
                    \<lparr>snapshot = [((''w'', Ellipsis), [0])], changes = write_y @ write_x,
                     merge_calls = [write_x]\<rparr>] =
     Inr \<lparr>snapshot = [((''w'', Ellipsis), [0])], changes = write_z @ write_y @ write_x,
          merge_calls = [write_y @ write_x]\<rparr>
   \<and> content \<lparr>snapshot = [((''w'', Ellipsis), [0])], changes = write_z @ write_y @ write_x,
               merge_calls = [write_y @ write_x]\<rparr> =
     content \<lparr>snapshot = [((''w'', Ellipsis), [0])], changes = write_x @ write_y @ write_z,
              merge_calls = [write_y, write_z]\<rparr>
   \<and> content (IcechunkStore_merge (example_store write_x)
                (change_set_bytes (example_store write_y))) =
     content (IcechunkStore_merge (example_store write_y)
                (change_set_bytes (example_store write_x)))"
proof -
  let ?base = "[((''w'', Ellipsis), [0 :: int])]"
  let ?m = "\<lparr>snapshot = ?base, changes = write_x @ write_y @ write_z,
             merge_calls = [write_y, write_z]\<rparr>"
  let ?yx = "\<lparr>snapshot = ?base, changes = write_y @ write_x, merge_calls = [write_x]\<rparr>"
  let ?m' = "\<lparr>snapshot = ?base, changes = write_z @ write_y @ write_x,
              merge_calls = [write_y @ write_x]\<rparr>"
  have s: "snapshot (example_store cs) = ?base" "changes (example_store cs) = cs" for cs
    by (simp_all add: example_store_def)
  have d: "pairwise_disjoint [write_x, write_y, write_z]"
    by (simp add: locations_def write_x_def write_y_def write_z_def)
  have h1: "pairwise_disjoint
      [changes (example_store write_x), changes (example_store write_y),
       changes (example_store write_z)]"
    using d by (simp only: s)
  have h2: "\<forall>s \<in> set [example_store write_x, example_store write_y, example_store write_z].
              snapshot s = ?base"
    by (simp add: s)
  have h3: "pairwise_disjoint
      (map changes [example_store write_x, example_store write_y, example_store write_z])"
    using d by (simp only: list.map s)
  have h4: "merge_stores [example_store write_x, example_store write_y, example_store write_z] =
            Inr ?m"
    by (simp add: example_store_def IcechunkStore_merge_def change_set_bytes_def)
  have h5: "mset (concat [[example_store write_z], [example_store write_y, example_store write_x]]) =
            mset [example_store write_x, example_store write_y, example_store write_z]"
    by simp
  have h6: "map merge_stores
              [[example_store write_z], [example_store write_y, example_store write_x]] =
            map Inr [example_store write_z, ?yx]"
    by (simp add: example_store_def IcechunkStore_merge_def change_set_bytes_def)
  have h7: "merge_stores [example_store write_z, ?yx] = Inr ?m'"
    by (simp add: example_store_def IcechunkStore_merge_def change_set_bytes_def)
  show ?thesis
    using h4 h6 h7
      merge_stores_commutative_monoid
        [OF s(1) s(1) s(1) s(1) s(2) h1 h2 h3 h4 h5 h6 h7]
    by simp
qed

section \<open>The tree reduction returns\<close>

lemma run_tasks_Inr_iff: "run_tasks f ts = Inr ys \<longleftrightarrow> map f ts = map Inr ys"
proof (induction ts arbitrary: ys)
  case Nil
  then show ?case by auto
next
  case (Cons t ts)
  show ?case
  proof (cases ys)
    case Nil
    then show ?thesis by (auto split: sum.splits)
  next
    case (Cons y ys')
    then show ?thesis using Cons.IH [of ys'] by (auto split: sum.splits)
  qed
qed

lemma groups_of_concat: "0 < n \<Longrightarrow> concat (groups_of n xs) = xs"
proof (induction n xs rule: groups_of.induct)
  case (1 n xs)
  then show ?case by (subst groups_of.simps) auto
qed

lemma groups_of_nonempty: "g \<in> set (groups_of n xs) \<Longrightarrow> g \<noteq> []"
proof (induction n xs rule: groups_of.induct)
  case (1 n xs)
  from "1.prems" have ne: "n \<noteq> 0" "xs \<noteq> []"
    by (subst (asm) groups_of.simps, simp split: if_splits)+
  from "1.prems" ne have "g = take n xs \<or> g \<in> set (groups_of n (drop n xs))"
    by (subst (asm) groups_of.simps) simp
  then show ?case using ne "1.IH" by auto
qed

lemma groups_of_length_le: "length (groups_of n xs) \<le> length xs"
proof (induction n xs rule: groups_of.induct)
  case (1 n xs)
  show ?case
  proof (cases "n = 0 \<or> xs = []")
    case True
    then show ?thesis by (subst groups_of.simps) simp
  next
    case False
    then have eq: "groups_of n xs = take n xs # groups_of n (drop n xs)"
      by (subst groups_of.simps) simp
    have "length (groups_of n (drop n xs)) \<le> length xs - n" using False "1.IH" by simp
    moreover have "0 < length xs" "0 < n" using False by auto
    ultimately have "Suc (length (groups_of n (drop n xs))) \<le> length xs" by arith
    then show ?thesis by (simp add: eq)
  qed
qed

lemma groups_of_length_less:
  assumes "2 \<le> n" and "2 \<le> length xs"
  shows "length (groups_of n xs) < length xs"
proof -
  have "xs \<noteq> []" "n \<noteq> 0" using assms by auto
  then have "groups_of n xs = take n xs # groups_of n (drop n xs)"
    by (subst groups_of.simps) simp
  moreover have "length (groups_of n (drop n xs)) \<le> length xs - n"
    using groups_of_length_le [of n "drop n xs"] by simp
  ultimately show ?thesis using assms by simp
qed

lemma groups_of_hd:
  assumes "0 < n" and "xs \<noteq> []"
  shows "groups_of n xs \<noteq> [] \<and> hd (hd (groups_of n xs)) = hd xs"
proof -
  have "groups_of n xs = take n xs # groups_of n (drop n xs)"
    using assms by (subst groups_of.simps) simp
  then show ?thesis using assms by (cases xs) auto
qed

lemma merge_stores_groups:
  "\<forall>g \<in> set gs. g \<noteq> [] \<Longrightarrow> \<exists>ms. map merge_stores gs = map Inr ms"
proof (induction gs)
  case Nil
  then show ?case by simp
next
  case (Cons g gs)
  then obtain ms where ms: "map merge_stores gs = map Inr ms" by auto
  from Cons.prems obtain s rest where "g = s # rest" by (cases g) auto
  then have "map merge_stores (g # gs) =
    map Inr (foldl (\<lambda>store other. IcechunkStore_merge store (change_set_bytes other)) s rest # ms)"
    using ms by simp
  then show ?case by blast
qed

text \<open>
  With a branching factor of at least 2, as many levels as there are stores are enough: the
  reduction with \<^verbatim>\<open>merge_stores\<close> returns a store, which has the base version of the first
  store and the pending mutations of all of them, in input order.
\<close>

lemma tree_reduce_merge_stores:
  "2 \<le> bf \<Longrightarrow> items \<noteq> [] \<Longrightarrow> length items \<le> fuel \<Longrightarrow>
   \<exists>m. tree_reduce fuel merge_stores bf items = Some (Inr m)
      \<and> changes m = concat (map changes items) \<and> snapshot m = snapshot (hd items)"
proof (induction fuel arbitrary: items)
  case 0
  then show ?case by simp
next
  case (Suc fuel)
  show ?case
  proof (cases items)
    case Nil
    with Suc.prems show ?thesis by simp
  next
    case (Cons x rest)
    show ?thesis
    proof (cases rest)
      case Nil
      with Cons show ?thesis by simp
    next
      case rest: (Cons y rest')
      have len2: "2 \<le> length items" using Cons rest by simp
      have bf: "0 < bf" using Suc.prems(1) by simp
      obtain ms where ms: "map merge_stores (groups_of bf items) = map Inr ms"
        using merge_stores_groups [of "groups_of bf items"] groups_of_nonempty by blast
      then have rt: "run_tasks merge_stores (groups_of bf items) = Inr ms"
        by (simp add: run_tasks_Inr_iff)
      have lms: "length ms = length (groups_of bf items)" using ms by (metis length_map)
      from groups_of_hd [OF bf Suc.prems(2)] have g: "groups_of bf items \<noteq> []"
        "hd (hd (groups_of bf items)) = hd items" by simp_all
      have ne: "ms \<noteq> []" using lms g(1) by auto
      have "length ms \<le> fuel"
        using groups_of_length_less [OF Suc.prems(1) len2] lms Suc.prems(3) by simp
      from Suc.IH [OF Suc.prems(1) ne this] obtain m where
        m: "tree_reduce fuel merge_stores bf ms = Some (Inr m)"
        "changes m = concat (map changes ms)" "snapshot m = snapshot (hd ms)" by blast
      from merge_groups_InrD [OF ms] have d:
        "concat (map changes ms) = concat (map changes (concat (groups_of bf items)))"
        "map snapshot ms = map (snapshot \<circ> hd) (groups_of bf items)" by simp_all
      have "snapshot (hd ms) = hd (map snapshot ms)" using ne by (simp add: hd_map)
      also have "\<dots> = snapshot (hd (hd (groups_of bf items)))"
        using g(1) by (simp add: d(2) hd_map)
      finally have s: "snapshot (hd ms) = snapshot (hd items)" by (simp add: g(2))
      have "tree_reduce (Suc fuel) merge_stores bf items = tree_reduce fuel merge_stores bf ms"
        using bf rt by (simp add: Cons rest)
      then show ?thesis using m d(1) s by (simp add: groups_of_concat [OF bf])
    qed
  qed
qed

text \<open>
  With a branching factor of 1 the reduction of two stores or more does not return, however
  many levels are allowed.
\<close>

lemma groups_of_one: "groups_of 1 xs = map (\<lambda>x. [x]) xs"
proof (induction xs)
  case Nil
  then show ?case by (subst groups_of.simps) simp
next
  case (Cons x xs)
  then show ?case by (subst groups_of.simps) simp
qed

lemma run_tasks_merge_stores_singletons:
  "run_tasks merge_stores (map (\<lambda>x. [x]) items) = Inr items"
  by (induction items) simp_all

lemma tree_reduce_no_progress:
  assumes "2 \<le> length items"
  shows "tree_reduce fuel merge_stores 1 items = None"
proof -
  from assms obtain x y rest where items: "items = x # y # rest"
    by (cases items; cases "tl items") auto
  show ?thesis
  proof (induction fuel)
    case 0
    then show ?case by (simp add: items)
  next
    case (Suc fuel)
    have "tree_reduce (Suc fuel) merge_stores 1 items = tree_reduce fuel merge_stores 1 items"
      unfolding items
      by (simp add: groups_of_one run_tasks_merge_stores_singletons del: One_nat_def)
    then show ?case using Suc by simp
  qed
qed

text \<open>
  So the reducer of the spec returns a store when every chunk task succeeds and the
  branching factor is at least 2: the store has the pending mutations of the handles of
  all tasks, in input order.
\<close>

lemma stateful_store_reduce_returns:
  assumes "run_tasks (run_chunk_task canonical) stored = Inr arrays" and "stored \<noteq> []"
    and "2 \<le> (case split_every of None \<Rightarrow> dflt | Some k \<Rightarrow> nat k)"
  shows "\<exists>m. stateful_store_reduce dflt stored prefix extract_stores merge_stores
               split_every compute kw canonical = Some (Inr m, canonical)
            \<and> changes m = concat (map (changes \<circ> array_store) arrays)"
proof -
  have "map (run_chunk_task canonical) stored = map Inr arrays"
    using assms(1) by (simp add: run_tasks_Inr_iff)
  then have "length arrays = length stored" by (metis length_map)
  then have ne: "map extract_stores arrays \<noteq> []" using assms(2) by auto
  from tree_reduce_merge_stores [OF assms(3) ne, of "length arrays"] obtain m where
    "tree_reduce (length arrays) merge_stores
       (case split_every of None \<Rightarrow> dflt | Some k \<Rightarrow> nat k) (map extract_stores arrays) =
     Some (Inr m)"
    "changes m = concat (map changes (map extract_stores arrays))"
    by auto
  then show ?thesis
    using assms(1) by (simp add: stateful_store_reduce_def extract_stores_def comp_def)
qed

end
